theory Spec2Isabelle
  imports Complex_Main
begin

section \<open>JavaScript values used by the components\<close>

text \<open>
  A JavaScript \<open>number\<close> is a double: a real that binary64 represents, one of the
  two infinities, or \<open>NaN\<close>. The arithmetic below rounds every result to the
  nearest double, ties to even, and overflows to an infinity. The sign of zero is
  not modelled, and a decimal literal of the source (\<open>0.9\<close>, \<open>0.1\<close>) stands for
  the decimal as written.
\<close>

datatype number = Num real | Infinity | NegInfinity | NaN

text \<open>
  The double nearest to a real. For \<open>x\<close> other than 0 the exponent \<open>e\<close> is the least
  one from \<open>-1074\<close> on for which \<open>|x| / 2^e\<close> is below \<open>2^53\<close>; the quotient is rounded
  to an integer, a half going to the even neighbour; and a result of \<open>2^1024\<close> or
  more, or no exponent up to 971, is an overflow.
\<close>

definition round_half_even :: "real \<Rightarrow> int" where
  "round_half_even q =
     (let f = \<lfloor>q\<rfloor>; r = q - of_int f
      in if r < 1 / 2 then f else if 1 / 2 < r then f + 1 else if even f then f else f + 1)"

definition double_exponent :: "real \<Rightarrow> int option" where
  "double_exponent a = find (\<lambda>e. a < 2 ^ 53 * 2 powi e) [- 1074..971]"

definition to_double :: "real \<Rightarrow> number" where
  "to_double x =
     (if x = 0 then Num 0
      else case double_exponent \<bar>x\<bar> of
             None \<Rightarrow> if 0 < x then Infinity else NegInfinity
           | Some e \<Rightarrow>
               let v = of_int (round_half_even (\<bar>x\<bar> / 2 powi e)) * 2 powi e
               in if 2 ^ 1024 \<le> v then (if 0 < x then Infinity else NegInfinity)
                  else Num (if 0 < x then v else - v))"

text \<open>The comparison \<open>a > b\<close>: false as soon as one side is \<open>NaN\<close>.\<close>

fun js_greater :: "number \<Rightarrow> number \<Rightarrow> bool" where
  "js_greater (Num x) (Num y) = (y < x)"
| "js_greater NaN b = False"
| "js_greater a NaN = False"
| "js_greater Infinity b = (b \<noteq> Infinity)"
| "js_greater a Infinity = False"
| "js_greater a NegInfinity = (a \<noteq> NegInfinity)"
| "js_greater NegInfinity b = False"

text \<open>
  The quotient \<open>a / b\<close> never raises: a zero divisor gives \<open>NaN\<close> for \<open>0 / 0\<close> and
  an infinity otherwise. Quotient and product of two doubles are the exact
  result rounded to a double.
\<close>

fun js_divide :: "number \<Rightarrow> number \<Rightarrow> number" where
  "js_divide (Num x) (Num y) =
     (if y \<noteq> 0 then to_double (x / y)
      else if x = 0 then NaN else if 0 < x then Infinity else NegInfinity)"
| "js_divide NaN b = NaN"
| "js_divide a NaN = NaN"
| "js_divide (Num x) b = Num 0"
| "js_divide Infinity (Num y) = (if 0 \<le> y then Infinity else NegInfinity)"
| "js_divide NegInfinity (Num y) = (if 0 \<le> y then NegInfinity else Infinity)"
| "js_divide a b = NaN"

fun js_times :: "number \<Rightarrow> number \<Rightarrow> number" where
  "js_times (Num x) (Num y) = to_double (x * y)"
| "js_times NaN b = NaN"
| "js_times a NaN = NaN"
| "js_times (Num x) b =
     (if x = 0 then NaN else if (0 < x) = (b = Infinity) then Infinity else NegInfinity)"
| "js_times a (Num y) =
     (if y = 0 then NaN else if (0 < y) = (a = Infinity) then Infinity else NegInfinity)"
| "js_times a b = (if a = b then Infinity else NegInfinity)"

text \<open>
  \<open>Math.round\<close> of a double: the nearest integer, a half rounding up. The result
  is a double again, since a double of magnitude \<open>2^52\<close> or more is an integer.
\<close>

fun Math_round :: "number \<Rightarrow> number" where
  "Math_round (Num x) = Num (of_int \<lfloor>x + 1 / 2\<rfloor>)"
| "Math_round a = a"

text \<open>
  A \<open>string\<close> is the UTF-8 encoding of the JavaScript string. The white space
  that \<open>parseInt\<close> and \<open>parseFloat\<close> skip: tab, line feed, vertical tab, form feed,
  carriage return, space, U+00A0, U+1680, U+2000 to U+200A, U+2028, U+2029,
  U+202F, U+205F, U+3000 and U+FEFF.
\<close>

definition white_space :: "string list" where
  "white_space =
     [[CHR 0x09], [CHR 0x0A], [CHR 0x0B], [CHR 0x0C], [CHR 0x0D], [CHR 0x20],
      [CHR 0xC2, CHR 0xA0], [CHR 0xE1, CHR 0x9A, CHR 0x80],
      [CHR 0xE2, CHR 0x80, CHR 0x80], [CHR 0xE2, CHR 0x80, CHR 0x81],
      [CHR 0xE2, CHR 0x80, CHR 0x82], [CHR 0xE2, CHR 0x80, CHR 0x83],
      [CHR 0xE2, CHR 0x80, CHR 0x84], [CHR 0xE2, CHR 0x80, CHR 0x85],
      [CHR 0xE2, CHR 0x80, CHR 0x86], [CHR 0xE2, CHR 0x80, CHR 0x87],
      [CHR 0xE2, CHR 0x80, CHR 0x88], [CHR 0xE2, CHR 0x80, CHR 0x89],
      [CHR 0xE2, CHR 0x80, CHR 0x8A], [CHR 0xE2, CHR 0x80, CHR 0xA8],
      [CHR 0xE2, CHR 0x80, CHR 0xA9], [CHR 0xE2, CHR 0x80, CHR 0xAF],
      [CHR 0xE2, CHR 0x81, CHR 0x9F], [CHR 0xE3, CHR 0x80, CHR 0x80],
      [CHR 0xEF, CHR 0xBB, CHR 0xBF]]"

definition leading_white_space :: "string \<Rightarrow> string option" where
  "leading_white_space s = find (\<lambda>w. take (length w) s = w) white_space"

function trim_start :: "string \<Rightarrow> string" where
  "trim_start s =
     (case leading_white_space s of
        None \<Rightarrow> s
      | Some w \<Rightarrow> trim_start (drop (length w) s))"
  by pat_completeness auto
termination
proof (relation "measure length")
  show "wf (measure length)" by simp
next
  fix s w
  assume "leading_white_space s = Some w"
  then have "w \<in> set white_space" and w: "take (length w) s = w"
    by (auto simp: leading_white_space_def find_Some_iff)
  then have "w \<noteq> []" by (auto simp: white_space_def)
  with w have "s \<noteq> []" by auto
  with \<open>w \<noteq> []\<close> show "(drop (length w) s, s) \<in> measure length" by simp
qed

declare trim_start.simps [simp del]

text \<open>
  \<open>parseInt(s)\<close> with no radix: leading white space is skipped, one sign is read,
  a \<open>0x\<close> prefix selects base 16, and the longest run of digits of the base is
  the value, rounded to a double; with no digit the result is \<open>NaN\<close>.
\<close>

definition digit_value :: "char \<Rightarrow> nat option" where
  "digit_value c =
     (let k = (of_char c :: nat) in
      if 48 \<le> k \<and> k \<le> 57 then Some (k - 48)
      else if 97 \<le> k \<and> k \<le> 122 then Some (k - 87)
      else if 65 \<le> k \<and> k \<le> 90 then Some (k - 55)
      else None)"

definition is_digit :: "nat \<Rightarrow> char \<Rightarrow> bool" where
  "is_digit radix c = (case digit_value c of None \<Rightarrow> False | Some d \<Rightarrow> d < radix)"

definition digits_value :: "nat \<Rightarrow> string \<Rightarrow> nat" where
  "digits_value radix ds =
     foldl (\<lambda>acc c. acc * radix + (case digit_value c of None \<Rightarrow> 0 | Some d \<Rightarrow> d)) 0 ds"

definition parseInt :: "string \<Rightarrow> number" where
  "parseInt s =
     (let s1 = trim_start s;
          negative = (case s1 of [] \<Rightarrow> False | c # _ \<Rightarrow> c = CHR ''-'');
          s2 = (case s1 of [] \<Rightarrow> s1
                | c # cs \<Rightarrow> if c = CHR ''+'' \<or> c = CHR ''-'' then cs else s1);
          hex = (take 2 s2 = ''0x'' \<or> take 2 s2 = ''0X'');
          radix = (if hex then 16 else 10);
          s3 = (if hex then drop 2 s2 else s2);
          ds = takeWhile (is_digit radix) s3
      in if ds = [] then NaN
         else if negative then to_double (- real (digits_value radix ds))
         else to_double (real (digits_value radix ds)))"



text \<open>The decimal digits of a non-negative integer, as a template literal prints it.\<close>

definition digit_char :: "nat \<Rightarrow> char" where
  "digit_char d = char_of (48 + d)"

fun string_of_nat :: "nat \<Rightarrow> string" where
  "string_of_nat n =
     (if 10 \<le> n then string_of_nat (n div 10) @ [digit_char (n mod 10)] else [digit_char n])"

declare string_of_nat.simps [simp del]

text \<open>
  \<open>String.fromCharCode(n)\<close>: the one UTF-16 code unit \<open>n mod 65536\<close>. A \<open>string\<close>
  here is a list of bytes, so the code unit is written in UTF-8.
\<close>

definition fromCharCode :: "nat \<Rightarrow> string" where
  "fromCharCode n =
     (let u = n mod 65536 in
      if u < 128 then [char_of u]
      else if u < 2048 then [char_of (192 + u div 64), char_of (128 + u mod 64)]
      else [char_of (224 + u div 4096), char_of (128 + (u div 64) mod 64),
            char_of (128 + u mod 64)])"

text \<open>\<open>s.split(', ')\<close>: the pieces of \<open>s\<close> between the occurrences of comma-space.\<close>

fun split_comma_space :: "string \<Rightarrow> string \<Rightarrow> string list" where
  "split_comma_space acc [] = [rev acc]"
| "split_comma_space acc [c] = [rev (c # acc)]"
| "split_comma_space acc (c1 # c2 # cs) =
     (if c1 = CHR '','' \<and> c2 = CHR '' '' then rev acc # split_comma_space [] cs
      else split_comma_space (c1 # acc) (c2 # cs))"




text \<open>
  What \<open>fetch\<close> gives its caller: a rejected promise (the \<open>catch\<close> branch runs), or
  a response with its \<open>ok\<close> flag and its body.
\<close>

datatype 'b fetch_outcome = Network_error | Response bool 'b

fun response_ok :: "'b fetch_outcome \<Rightarrow> bool" where
  "response_ok Network_error = False"
| "response_ok (Response ok b) = ok"

text \<open>A request as passed to \<open>fetch\<close>; \<open>body\<close> is the value given to \<open>JSON.stringify\<close>.\<close>

record 'b request =
  url :: string
  http_method :: string
  headers :: "(string \<times> string) list"
  body :: 'b

section \<open>Schedule Optimizer (src/unnamed/part\_001)\<close>

record Train =
  train_id :: string
  route :: "string list"
  priority :: number
  current_delay :: number

record Track =
  track_id :: string
  capacity :: number
  track_type :: string

text \<open>The two \<open>useState\<close> cells of the component the claims are about.\<close>

record optimizer_state =
  trains :: "Train list"
  tracks :: "Track list"

definition initial_trains :: "Train list" where
  "initial_trains =
     [\<lparr>train_id = ''EXP-101'', route = [''A'', ''B'', ''C''], priority = Num 2, current_delay = Num 5\<rparr>,
      \<lparr>train_id = ''LOC-78'', route = [''A'', ''D'', ''E''], priority = Num 1, current_delay = Num 0\<rparr>,
      \<lparr>train_id = ''FRT-203'', route = [''B'', ''C'', ''F''], priority = Num 0, current_delay = Num 10\<rparr>]"

definition initial_tracks :: "Track list" where
  "initial_tracks =
     [\<lparr>track_id = ''A'', capacity = Num 1, track_type = ''junction''\<rparr>,
      \<lparr>track_id = ''B'', capacity = Num 2, track_type = ''track''\<rparr>,
      \<lparr>track_id = ''C'', capacity = Num 1, track_type = ''junction''\<rparr>,
      \<lparr>track_id = ''D'', capacity = Num 1, track_type = ''track''\<rparr>,
      \<lparr>track_id = ''E'', capacity = Num 1, track_type = ''platform''\<rparr>,
      \<lparr>track_id = ''F'', capacity = Num 1, track_type = ''platform''\<rparr>]"

definition initial_optimizer :: optimizer_state where
  "initial_optimizer = \<lparr>trains = initial_trains, tracks = initial_tracks\<rparr>"

definition addTrain :: "Train list \<Rightarrow> Train list" where
  "addTrain ts =
     ts @ [\<lparr>train_id = ''TRAIN-'' @ string_of_nat (length ts + 1), route = [''A'', ''B''],
            priority = Num 1, current_delay = Num 0\<rparr>]"

definition addTrack :: "Track list \<Rightarrow> Track list" where
  "addTrack ks =
     ks @ [\<lparr>track_id = fromCharCode (65 + length ks), capacity = Num 1, track_type = ''track''\<rparr>]"

text \<open>
  \<open>updateTrain(index, field, value)\<close> and \<open>updateTrack(index, field, value)\<close> copy
  the array and replace element \<open>index\<close> by a copy with \<open>field\<close> set to \<open>value\<close>.
  The pair of a field and a value of the field's type is one constructor below.
  Every call in the component passes the index of a rendered row; for an index
  past the end JavaScript would store an object holding the one field only,
  which is no \<open>Train\<close> or \<open>Track\<close>, and the model returns \<open>None\<close> there.
\<close>

datatype train_field = Train_id string | Route "string list" | Priority number | Current_delay number

datatype track_field = Track_id string | Capacity number | Track_type string

fun assign_train :: "Train \<Rightarrow> train_field \<Rightarrow> Train" where
  "assign_train t (Train_id v) = t\<lparr>train_id := v\<rparr>"
| "assign_train t (Route v) = t\<lparr>route := v\<rparr>"
| "assign_train t (Priority v) = t\<lparr>priority := v\<rparr>"
| "assign_train t (Current_delay v) = t\<lparr>current_delay := v\<rparr>"

fun assign_track :: "Track \<Rightarrow> track_field \<Rightarrow> Track" where
  "assign_track k (Track_id v) = k\<lparr>track_id := v\<rparr>"
| "assign_track k (Capacity v) = k\<lparr>capacity := v\<rparr>"
| "assign_track k (Track_type v) = k\<lparr>track_type := v\<rparr>"

definition updateTrain :: "nat \<Rightarrow> train_field \<Rightarrow> Train list \<Rightarrow> Train list option" where
  "updateTrain index fv ts =
     (if index < length ts then Some (ts[index := assign_train (ts ! index) fv]) else None)"

definition updateTrack :: "nat \<Rightarrow> track_field \<Rightarrow> Track list \<Rightarrow> Track list option" where
  "updateTrack index fv ks =
     (if index < length ks then Some (ks[index := assign_track (ks ! index) fv]) else None)"

text \<open>
  The \<open>onChange\<close> handlers of the form, each applied to \<open>e.target.value\<close>, the text
  of the control.
\<close>

definition route_onChange :: "nat \<Rightarrow> string \<Rightarrow> Train list \<Rightarrow> Train list option" where
  "route_onChange index v = updateTrain index (Route (split_comma_space [] v))"

definition current_delay_onChange :: "nat \<Rightarrow> string \<Rightarrow> Train list \<Rightarrow> Train list option" where
  "current_delay_onChange index v = updateTrain index (Current_delay (parseInt v))"

definition priority_onChange :: "nat \<Rightarrow> string \<Rightarrow> Train list \<Rightarrow> Train list option" where
  "priority_onChange index v = updateTrain index (Priority (parseInt v))"

definition capacity_onChange :: "nat \<Rightarrow> string \<Rightarrow> Track list \<Rightarrow> Track list option" where
  "capacity_onChange index v = updateTrack index (Capacity (parseInt v))"

definition type_onChange :: "nat \<Rightarrow> string \<Rightarrow> Track list \<Rightarrow> Track list option" where
  "type_onChange index v = updateTrack index (Track_type v)"

text \<open>The values of the \<open>option\<close> elements of the two selectors.\<close>

definition priority_options :: "string list" where
  "priority_options = [''0'', ''1'', ''2'']"

definition type_options :: "string list" where
  "type_options = [''track'', ''junction'', ''platform'']"

text \<open>
  One user action on the form. A selector delivers the value of one of its
  options; a text or number input delivers the text typed into it (the
  \<open>min\<close> attribute of the capacity input does not restrict what is typed).
\<close>

inductive optimizer_step :: "optimizer_state \<Rightarrow> optimizer_state \<Rightarrow> bool" where
  add_train: "optimizer_step s (s\<lparr>trains := addTrain (trains s)\<rparr>)"
| add_track: "optimizer_step s (s\<lparr>tracks := addTrack (tracks s)\<rparr>)"
| edit_route:
    "route_onChange i v (trains s) = Some ts \<Longrightarrow> optimizer_step s (s\<lparr>trains := ts\<rparr>)"
| edit_current_delay:
    "current_delay_onChange i v (trains s) = Some ts \<Longrightarrow> optimizer_step s (s\<lparr>trains := ts\<rparr>)"
| select_priority:
    "v \<in> set priority_options \<Longrightarrow> priority_onChange i v (trains s) = Some ts
     \<Longrightarrow> optimizer_step s (s\<lparr>trains := ts\<rparr>)"
| edit_capacity:
    "capacity_onChange i v (tracks s) = Some ks \<Longrightarrow> optimizer_step s (s\<lparr>tracks := ks\<rparr>)"
| select_type:
    "v \<in> set type_options \<Longrightarrow> type_onChange i v (tracks s) = Some ks
     \<Longrightarrow> optimizer_step s (s\<lparr>tracks := ks\<rparr>)"

inductive optimizer_reachable :: "optimizer_state \<Rightarrow> bool" where
  start: "optimizer_reachable initial_optimizer"
| step: "optimizer_reachable s \<Longrightarrow> optimizer_step s s' \<Longrightarrow> optimizer_reachable s'"

text \<open>The request \<open>handleOptimize\<close> sends: the body before \<open>JSON.stringify\<close>.\<close>

record schedule_entry =
  scheduled_time :: number

record optimize_body =
  body_trains :: "Train list"
  body_tracks :: "Track list"
  current_schedule :: "string \<rightharpoonup> schedule_entry"

definition handleOptimize_request :: "optimizer_state \<Rightarrow> optimize_body request" where
  "handleOptimize_request s =
     \<lparr>url = ''http://localhost:8000/optimize'', http_method = ''POST'',
      headers = [(''Content-Type'', ''application/json'')],
      body = \<lparr>body_trains = trains s, body_tracks = tracks s,
              current_schedule =
                foldl (\<lambda>acc train. acc(train_id train \<mapsto> \<lparr>scheduled_time = Num 0\<rparr>))
                  Map.empty (trains s)\<rparr>\<rparr>"

text \<open>Properties the claims speak of.\<close>

definition valid_priority :: "number \<Rightarrow> bool" where
  "valid_priority p = (p = Num 0 \<or> p = Num 1 \<or> p = Num 2)"

definition positive_integer :: "number \<Rightarrow> bool" where
  "positive_integer c = (case c of Num x \<Rightarrow> 1 \<le> x \<and> x = of_int \<lfloor>x\<rfloor> | _ \<Rightarrow> False)"

definition valid_kind :: "string \<Rightarrow> bool" where
  "valid_kind k = (k = ''track'' \<or> k = ''junction'' \<or> k = ''platform'')"

definition network_element_ok :: "Track \<Rightarrow> bool" where
  "network_element_ok k = (positive_integer (capacity k) \<and> valid_kind (track_type k))"

definition trains_using :: "string \<Rightarrow> Train list \<Rightarrow> string list" where
  "trains_using x ts = map train_id (filter (\<lambda>t. x \<in> set (route t)) ts)"

definition capacity_of :: "string \<Rightarrow> Track list \<Rightarrow> number option" where
  "capacity_of x ks = map_of (map (\<lambda>k. (track_id k, capacity k)) ks) x"

text \<open>
  A state of the form used as a concrete instance below: the initial one after
  \<open>Add Train\<close> and after choosing \<open>High (Express)\<close> for the new train.
\<close>

definition example_optimizer :: optimizer_state where
  "example_optimizer =
     \<lparr>trains =
        [\<lparr>train_id = ''EXP-101'', route = [''A'', ''B'', ''C''], priority = Num 2, current_delay = Num 5\<rparr>,
         \<lparr>train_id = ''LOC-78'', route = [''A'', ''D'', ''E''], priority = Num 1, current_delay = Num 0\<rparr>,
         \<lparr>train_id = ''FRT-203'', route = [''B'', ''C'', ''F''], priority = Num 0, current_delay = Num 10\<rparr>,
         \<lparr>train_id = ''TRAIN-4'', route = [''A'', ''B''], priority = Num 2, current_delay = Num 0\<rparr>],
      tracks = initial_tracks\<rparr>"

section \<open>AI Decisions (src/src/components/AIDecisions.tsx)\<close>

datatype decision_status = Pending | Accepted | Rejected

record AIDecision =
  decision_id :: string
  decision_type :: string
  description :: string
  impact :: string
  confidence :: number
  status :: decision_status
  estimatedTimeSaving :: number

text \<open>The parameter \<open>action: 'accept' | 'reject'\<close> and the text it stands for.\<close>

datatype action = Accept | Reject

fun action_text :: "action \<Rightarrow> string" where
  "action_text Accept = ''accept''"
| "action_text Reject = ''reject''"

record resolution_body =
  action :: string
  controller_id :: string
  feedback_score :: number
  context_text :: string

text \<open>
  \<open>handleDecision(decisionId, action)\<close> in two parts: the request it passes to
  \<open>fetch\<close>, and what it does to the \<open>decisions\<close> state once \<open>fetch\<close> has settled.
  The update is the functional one, \<open>setDecisions(prev => ...)\<close>, so \<open>prev\<close> is the
  state at the time the response is handled.
\<close>

definition handleDecision_request :: "string \<Rightarrow> action \<Rightarrow> resolution_body request" where
  "handleDecision_request decisionId act =
     \<lparr>url = ''http://localhost:8000/decisions/'' @ decisionId @ ''/'' @ action_text act,
      http_method = ''POST'',
      headers = [(''Content-Type'', ''application/json'')],
      body = \<lparr>action = action_text act,
              controller_id = ''controller-001'',
              feedback_score = (if act = Accept then Num 0.9 else Num 0.1),
              context_text = action_text act @ ''ed decision''\<rparr>\<rparr>"

definition handleDecision ::
  "string \<Rightarrow> action \<Rightarrow> 'b fetch_outcome \<Rightarrow> AIDecision list \<Rightarrow> AIDecision list" where
  "handleDecision decisionId act response prev =
     (case response of
        Network_error \<Rightarrow> prev
      | Response ok b \<Rightarrow>
          if ok
          then map (\<lambda>decision.
                 if decision_id decision = decisionId
                 then decision\<lparr>status := (if act = Accept then Accepted else Rejected)\<rparr>
                 else decision) prev
          else prev)"

text \<open>
  The Accept and Reject buttons of a card are rendered under
  \<open>decision.status === 'pending'\<close>.
\<close>

definition controls_offered :: "AIDecision \<Rightarrow> bool" where
  "controls_offered decision = (status decision = Pending)"

definition in_unit_interval :: "number \<Rightarrow> bool" where
  "in_unit_interval n = (case n of Num x \<Rightarrow> 0 \<le> x \<and> x \<le> 1 | _ \<Rightarrow> False)"

subsection \<open>The component together with the Decision Feedback Store\<close>

text \<open>
  Modelled from the spec: the Decision Feedback Store's \<open>resolve\<close> of section 4.5,
  which is backend code and not among the source files. It fails with
  \<open>UnknownDecisionError\<close> if the id is absent and with \<open>AlreadyResolvedError\<close> if the
  status is not pending; otherwise the decision takes the outcome. The endpoint
  \<open>POST /decisions/{id}/{action}\<close> answers with success exactly when \<open>resolve\<close>
  succeeds (section 6: no response body beyond success or failure).
\<close>

datatype store_error = UnknownDecisionError | AlreadyResolvedError

definition resolve ::
  "(string \<rightharpoonup> decision_status) \<Rightarrow> string \<Rightarrow> decision_status
     \<Rightarrow> store_error + (string \<rightharpoonup> decision_status)" where
  "resolve st i outcome =
     (case st i of
        None \<Rightarrow> Inl UnknownDecisionError
      | Some cur \<Rightarrow> if cur \<noteq> Pending then Inl AlreadyResolvedError
                   else Inr (st(i \<mapsto> outcome)))"

fun outcome_of :: "action \<Rightarrow> decision_status" where
  "outcome_of Accept = Accepted"
| "outcome_of Reject = Rejected"

text \<open>
  \<open>handleDecision\<close> is asynchronous: between the click and the arrival of the
  response the page is rendered from the unchanged state, so further clicks are
  possible. The state of the whole is the \<open>decisions\<close> of the component, the
  requests sent and not yet served, the responses served and not yet handled,
  and the store. A step is one of: a click on a control that is offered; the
  store serving a request; a request lost on the way; a response handled by the
  component, or lost on the way, in which case \<open>fetch\<close> rejects; another controller
  resolving a decision.
\<close>

record system =
  decisions :: "AIDecision list"
  requests :: "(string \<times> action) list"
  responses :: "(string \<times> action \<times> string fetch_outcome) list"
  store :: "string \<rightharpoonup> decision_status"

inductive system_step :: "system \<Rightarrow> system \<Rightarrow> bool" where
  click:
    "d \<in> set (decisions s) \<Longrightarrow> controls_offered d
     \<Longrightarrow> system_step s (s\<lparr>requests := requests s @ [(decision_id d, a)]\<rparr>)"
| serve_ok:
    "(i, a) \<in> set (requests s) \<Longrightarrow> resolve (store s) i (outcome_of a) = Inr st'
     \<Longrightarrow> system_step s
          (s\<lparr>requests := remove1 (i, a) (requests s),
             responses := responses s @ [(i, a, Response True b)], store := st'\<rparr>)"
| serve_error:
    "(i, a) \<in> set (requests s) \<Longrightarrow> resolve (store s) i (outcome_of a) = Inl e
     \<Longrightarrow> system_step s
          (s\<lparr>requests := remove1 (i, a) (requests s),
             responses := responses s @ [(i, a, Response False b)]\<rparr>)"
| request_lost:
    "(i, a) \<in> set (requests s)
     \<Longrightarrow> system_step s
          (s\<lparr>requests := remove1 (i, a) (requests s),
             responses := responses s @ [(i, a, Network_error)]\<rparr>)"
| deliver:
    "(i, a, r) \<in> set (responses s) \<Longrightarrow> r' = r \<or> r' = Network_error
     \<Longrightarrow> system_step s
          (s\<lparr>decisions := handleDecision i a r' (decisions s),
             responses := remove1 (i, a, r) (responses s)\<rparr>)"
| other_controller:
    "resolve (store s) i (outcome_of a) = Inr st' \<Longrightarrow> system_step s (s\<lparr>store := st'\<rparr>)"

text \<open>
  The page becomes interactive once the list of decisions has been fetched: the
  decisions have distinct ids (the identity of section 3, also the React key of
  a card), and nothing is under way.
\<close>

definition system_initial :: "system \<Rightarrow> bool" where
  "system_initial s =
     (distinct (map decision_id (decisions s)) \<and> requests s = [] \<and> responses s = [])"

inductive system_reachable :: "system \<Rightarrow> bool" where
  init: "system_initial s \<Longrightarrow> system_reachable s"
| next_step: "system_reachable s \<Longrightarrow> system_step s s' \<Longrightarrow> system_reachable s'"

definition all_pending :: "string \<Rightarrow> AIDecision list \<Rightarrow> bool" where
  "all_pending i ds = (\<forall>d\<in>set ds. decision_id d = i \<longrightarrow> status d = Pending)"

definition lifecycle_inv :: "system \<Rightarrow> bool" where
  "lifecycle_inv s =
     (distinct (map decision_id (decisions s))
      \<and> (\<forall>q\<in>set (requests s).
            store s (fst q) = Some Pending \<longrightarrow> all_pending (fst q) (decisions s))
      \<and> (\<forall>p\<in>set (responses s). response_ok (snd (snd p)) \<longrightarrow>
            store s (fst p) \<noteq> Some Pending \<and> all_pending (fst p) (decisions s))
      \<and> distinct (map fst (filter (\<lambda>p. response_ok (snd (snd p))) (responses s))))"

text \<open>Concrete instances used below.\<close>

definition example_decision :: AIDecision where
  "example_decision =
     \<lparr>decision_id = ''D-1'', decision_type = ''routing'', description = ''Reroute EXP-101'',
      impact = ''Frees junction A'', confidence = Num 0.8, status = Pending,
      estimatedTimeSaving = Num 4\<rparr>"

definition example_decision_2 :: AIDecision where
  "example_decision_2 =
     \<lparr>decision_id = ''D-2'', decision_type = ''scheduling'', description = ''Hold FRT-203'',
      impact = ''Keeps track C free'', confidence = Num 0.6, status = Pending,
      estimatedTimeSaving = Num 2\<rparr>"

definition example_replied :: system where
  "example_replied =
     \<lparr>decisions = [example_decision, example_decision_2], requests = [],
      responses = [(''D-2'', Reject, Response True ''done'')],
      store = [''D-1'' \<mapsto> Pending, ''D-2'' \<mapsto> Rejected]\<rparr>"

definition example_resolved :: system where
  "example_resolved =
     \<lparr>decisions = [example_decision, example_decision_2\<lparr>status := Rejected\<rparr>],
      requests = [], responses = [],
      store = [''D-1'' \<mapsto> Pending, ''D-2'' \<mapsto> Rejected]\<rparr>"

section \<open>ML Predictions (src/src/components/MLPredictions.tsx)\<close>












section \<open>Dashboard (src/src/components/Dashboard.tsx)\<close>

datatype train_status = On_time | Delayed | Early

record TrainStatus =
  ts_id :: string
  ts_name :: string
  ts_status :: train_status
  ts_delay :: number
  ts_route :: string

text \<open>An element of \<open>data.predictions\<close>, of which the component reads two fields.\<close>

record prediction =
  trainId :: string
  predictedDelay :: number

text \<open>
  \<open>fetchTrainStatuses\<close>, as a function of what \<open>fetch\<close> gave and of the state: the
  body is \<open>None\<close> when \<open>response.json()\<close> or the access to \<open>data.predictions\<close>
  throws, which the \<open>catch\<close> branch absorbs.
\<close>

definition fetchTrainStatuses ::
  "prediction list option fetch_outcome \<Rightarrow> TrainStatus list \<Rightarrow> TrainStatus list" where
  "fetchTrainStatuses response trainStatuses =
     (case response of
        Network_error \<Rightarrow> trainStatuses
      | Response ok data \<Rightarrow>
          if ok
          then (case data of
                  None \<Rightarrow> trainStatuses
                | Some predictions \<Rightarrow>
                    map (\<lambda>pred.
                      \<lparr>ts_id = trainId pred, ts_name = trainId pred,
                       ts_status = (if js_greater (predictedDelay pred) (Num 10)
                                    then Delayed else On_time),
                       ts_delay = predictedDelay pred, ts_route = ''Route A''\<rparr>) predictions)
          else trainStatuses)"

text \<open>The \<open>trainStatuses\<close> state starts empty and changes only by a fetch.\<close>

inductive trainStatuses_reachable :: "TrainStatus list \<Rightarrow> bool" where
  mounted: "trainStatuses_reachable []"
| fetched: "trainStatuses_reachable sts \<Longrightarrow> trainStatuses_reachable (fetchTrainStatuses r sts)"

record stats =
  totalTrains :: number
  onTimeTrains :: number
  delayedTrains :: number
  pendingDecisions :: number
  timeSaved :: number

definition initial_stats :: stats where
  "initial_stats =
     \<lparr>totalTrains = Num 0, onTimeTrains = Num 0, delayedTrains = Num 0,
      pendingDecisions = Num 0, timeSaved = Num 0\<rparr>"

text \<open>The number shown before \<open>% on-time rate\<close>.\<close>

definition on_time_rate :: "stats \<Rightarrow> number" where
  "on_time_rate st =
     (if js_greater (totalTrains st) (Num 0)
      then Math_round (js_times (js_divide (onTimeTrains st) (totalTrains st)) (Num 100))
      else Num 0)"

definition example_predictions :: "prediction list" where
  "example_predictions =
     [\<lparr>trainId = ''EXP-101'', predictedDelay = Num 12.5\<rparr>,
      \<lparr>trainId = ''LOC-78'', predictedDelay = Num 10\<rparr>,
      \<lparr>trainId = ''FRT-203'', predictedDelay = Num (- 3)\<rparr>]"

section \<open>Analytics (src/src/components/Analytics.tsx)\<close>

record decision_success_rate =
  total_decisions :: number
  acceptance_rate :: number
  average_feedback_score :: number
  decision_types :: "(string \<times> number) list"

text \<open>
  The badge of one entry of \<open>decision_types\<close>, and the badges of all entries as
  \<open>Object.entries(...).map\<close> renders them.
\<close>

definition decision_type_percentage :: "decision_success_rate \<Rightarrow> number \<Rightarrow> number" where
  "decision_type_percentage d count =
     (if js_greater (total_decisions d) (Num 0)
      then Math_round (js_times (js_divide count (total_decisions d)) (Num 100))
      else Num 0)"

definition decision_type_badges :: "decision_success_rate \<Rightarrow> (string \<times> number) list" where
  "decision_type_badges d =
     map (\<lambda>(type, count). (type, decision_type_percentage d count)) (decision_types d)"

definition example_success_rate :: decision_success_rate where
  "example_success_rate =
     \<lparr>total_decisions = Num 0, acceptance_rate = Num 0, average_feedback_score = Num 0,
      decision_types = [(''routing'', Num 0), (''scheduling'', Num 0)]\<rparr>"

section \<open>JavaScript values: properties\<close>

lemma find_sorted_least:
  "find P xs = Some x \<Longrightarrow> sorted xs \<Longrightarrow> y \<in> set xs \<Longrightarrow> P y \<Longrightarrow> x \<le> (y::int)"
  by (induction xs) (auto split: if_splits)

lemma find_Some_holds: "find P xs = Some x \<Longrightarrow> P x \<and> x \<in> set xs"
  by (induction xs) (auto split: if_splits)

lemma find_upto:
  assumes "l \<le> E" and "E \<le> u" and "P E"
  shows "\<exists>e'. find P [l..u] = Some e' \<and> e' \<le> E \<and> l \<le> e'"
proof -
  have mem: "E \<in> set [l..u]" using assms by simp
  with assms(3) obtain e' where f: "find P [l..u] = Some e'"
    by (cases "find P [l..u]") (auto simp: find_None_iff)
  have "e' \<le> E" using find_sorted_least [OF f _ mem assms(3)] by simp
  moreover have "l \<le> e'" using find_Some_holds [OF f] by simp
  ultimately show ?thesis using f by blast
qed

lemma round_half_even_int: "round_half_even (of_int k) = k"
  by (simp add: round_half_even_def)

text \<open>
  A real \<open>m * 2^e\<close> with \<open>|m| < 2^53\<close>, \<open>e\<close> from \<open>-1074\<close> on and magnitude below
  \<open>2^1024\<close> is a double, and rounding leaves it as it is.
\<close>

lemma to_double_exact:
  assumes x: "x = of_int m * 2 powi e" and m: "\<bar>m\<bar> < 2 ^ 53" and e: "- 1074 \<le> e"
    and bound: "\<bar>x\<bar> < 2 ^ 1024"
  shows "to_double x = Num x"
proof (cases "x = 0")
  case True
  then show ?thesis by (simp add: to_double_def)
next
  case False
  define a where "a = \<bar>x\<bar>"
  have a: "a = of_int \<bar>m\<bar> * 2 powi e" by (simp add: a_def x abs_mult)
  define E where "E = min e 971"
  have E: "- 1074 \<le> E" "E \<le> 971" "E \<le> e" using e by (simp_all add: E_def)
  have PE: "a < 2 ^ 53 * 2 powi E"
  proof (cases "e \<le> 971")
    case True
    then have "E = e" by (simp add: E_def)
    moreover have "(of_int \<bar>m\<bar> :: real) < 2 ^ 53"
      using m by (metis of_int_less_numeral_power_cancel_iff)
    ultimately show ?thesis by (simp add: a)
  next
    case False
    then have "E = 971" by (simp add: E_def)
    moreover have "(2::real) ^ 53 * 2 powi 971 = 2 ^ 1024"
      by (simp add: power_int_def flip: power_add)
    ultimately show ?thesis using bound by (simp add: a_def)
  qed
  from find_upto [of "- 1074" E 971 "\<lambda>e. a < 2 ^ 53 * 2 powi e", OF E(1,2) PE]
  obtain e' where f: "find (\<lambda>e. a < 2 ^ 53 * 2 powi e) [- 1074..971] = Some e'"
    and "e' \<le> E" by blast
  with E have le: "e' \<le> e" by simp
  have "a / 2 powi e' = of_int \<bar>m\<bar> * 2 powi (e - e')"
    by (simp add: a power_int_diff)
  also have "\<dots> = of_int (\<bar>m\<bar> * 2 ^ nat (e - e'))"
    using le by (simp add: power_int_def)
  finally have q: "a / 2 powi e' = of_int (\<bar>m\<bar> * 2 ^ nat (e - e'))" .
  have v: "of_int (round_half_even (a / 2 powi e')) * 2 powi e' = a"
    unfolding q round_half_even_int unfolding q [symmetric] by simp
  show ?thesis
    using False f v bound
    by (simp add: to_double_def double_exponent_def a_def [symmetric] Let_def)
       (simp add: a_def)
qed

lemma to_double_small:
  "to_double 0 = Num 0" "to_double 1 = Num 1" "to_double 2 = Num 2"
  "to_double (3 / 4) = Num (3 / 4)" "to_double 75 = Num 75" "to_double (1 / 2) = Num (1 / 2)"
proof -
  show "to_double 0 = Num 0" by (simp add: to_double_def)
  show "to_double 1 = Num 1" by (rule to_double_exact [where m = 1 and e = 0]) simp_all
  show "to_double 2 = Num 2" by (rule to_double_exact [where m = 2 and e = 0]) simp_all
  show "to_double (3 / 4) = Num (3 / 4)"
    by (rule to_double_exact [where m = 3 and e = "- 2"]) (simp_all add: power_int_minus)
  show "to_double 75 = Num 75" by (rule to_double_exact [where m = 75 and e = 0]) simp_all
  show "to_double (1 / 2) = Num (1 / 2)"
    by (rule to_double_exact [where m = 1 and e = "- 1"]) (simp_all add: power_int_minus)
qed

lemma trim_start_none: "leading_white_space s = None \<Longrightarrow> trim_start s = s"
  by (subst trim_start.simps) simp

lemma trim_start_digit:
  "trim_start ''0'' = ''0''" "trim_start ''1'' = ''1''" "trim_start ''2'' = ''2''"
  "trim_start [] = []" "trim_start ''0.5'' = ''0.5''"
  by (rule trim_start_none; simp add: leading_white_space_def white_space_def)+

text \<open>White space is skipped whatever its encoding takes: here U+00A0, then a tab.\<close>

lemma trim_start_no_break_space:
  "trim_start [CHR 0xC2, CHR 0xA0, CHR 0x09, CHR ''4'', CHR ''2''] = ''42''"
proof -
  have "trim_start [CHR 0xC2, CHR 0xA0, CHR 0x09, CHR ''4'', CHR ''2'']
          = trim_start [CHR 0x09, CHR ''4'', CHR ''2'']"
    by (subst trim_start.simps) (simp add: leading_white_space_def white_space_def)
  also have "\<dots> = trim_start ''42''"
    by (subst trim_start.simps) (simp add: leading_white_space_def white_space_def)
  also have "\<dots> = ''42''"
    by (rule trim_start_none) (simp add: leading_white_space_def white_space_def)
  finally show ?thesis .
qed

lemma parseInt_priority_options:
  "parseInt ''0'' = Num 0" "parseInt ''1'' = Num 1" "parseInt ''2'' = Num 2"
  by (simp_all add: parseInt_def trim_start_digit is_digit_def digit_value_def digits_value_def
      to_double_small)

lemma parseInt_empty: "parseInt [] = NaN"
  by (simp add: parseInt_def trim_start_digit)


section \<open>Schedule Optimizer: properties\<close>


subsection \<open>Train priorities\<close>

lemma updateTrain_priority:
  assumes "updateTrain i fv ts = Some ts'"
    and "\<forall>t\<in>set ts. valid_priority (priority t)"
    and "\<And>p. fv = Priority p \<Longrightarrow> valid_priority p"
  shows "\<forall>t\<in>set ts'. valid_priority (priority t)"
proof -
  from assms(1) have i: "i < length ts" and ts': "ts' = ts[i := assign_train (ts ! i) fv]"
    by (auto simp: updateTrain_def split: if_splits)
  have "valid_priority (priority (assign_train (ts ! i) fv))"
    using assms(2,3) i by (cases fv) auto
  with assms(2) show ?thesis
    unfolding ts' using set_update_subset_insert [of ts i] by blast
qed

lemma optimizer_step_priority:
  assumes "optimizer_step s s'" and "\<forall>t\<in>set (trains s). valid_priority (priority t)"
  shows "\<forall>t\<in>set (trains s'). valid_priority (priority t)"
  using assms
proof (induction rule: optimizer_step.induct)
  case (add_train s)
  then show ?case by (auto simp: addTrain_def valid_priority_def)
next
  case (add_track s)
  then show ?case by simp
next
  case (edit_route i v s ts)
  have "\<forall>t\<in>set ts. valid_priority (priority t)"
  proof (rule updateTrain_priority)
    show "updateTrain i (Route (split_comma_space [] v)) (trains s) = Some ts"
      using edit_route.hyps by (simp add: route_onChange_def)
  qed (use edit_route.prems in simp_all)
  then show ?case by simp
next
  case (edit_current_delay i v s ts)
  have "\<forall>t\<in>set ts. valid_priority (priority t)"
  proof (rule updateTrain_priority)
    show "updateTrain i (Current_delay (parseInt v)) (trains s) = Some ts"
      using edit_current_delay.hyps by (simp add: current_delay_onChange_def)
  qed (use edit_current_delay.prems in simp_all)
  then show ?case by simp
next
  case (select_priority v i s ts)
  have v: "valid_priority (parseInt v)"
    using select_priority.hyps(1)
    by (auto simp: priority_options_def valid_priority_def parseInt_priority_options)
  have "\<forall>t\<in>set ts. valid_priority (priority t)"
  proof (rule updateTrain_priority)
    show "updateTrain i (Priority (parseInt v)) (trains s) = Some ts"
      using select_priority.hyps by (simp add: priority_onChange_def)
  qed (use select_priority.prems v in simp_all)
  then show ?case by simp
next
  case (edit_capacity i v s ks)
  then show ?case by simp
next
  case (select_type v i s ks)
  then show ?case by simp
qed

lemma optimizer_reachable_priority:
  "optimizer_reachable s \<Longrightarrow> \<forall>t\<in>set (trains s). valid_priority (priority t)"
proof (induction rule: optimizer_reachable.induct)
  case start
  show ?case by (simp add: initial_optimizer_def initial_trains_def valid_priority_def)
next
  case (step s s')
  then show ?case using optimizer_step_priority by blast
qed

lemma example_optimizer_reachable: "optimizer_reachable example_optimizer"
proof -
  let ?s1 = "initial_optimizer\<lparr>trains := addTrain (trains initial_optimizer)\<rparr>"
  have 1: "optimizer_reachable ?s1"
    by (intro optimizer_reachable.step [OF optimizer_reachable.start] optimizer_step.add_train)
  have "string_of_nat (length initial_trains + 1) = ''4''"
    unfolding initial_trains_def by code_simp
  then have "priority_onChange 3 ''2'' (trains ?s1) = Some (trains example_optimizer)"
    by (simp add: priority_onChange_def updateTrain_def initial_optimizer_def addTrain_def
        parseInt_priority_options example_optimizer_def)
       (simp add: initial_trains_def)
  then have "optimizer_step ?s1 (?s1\<lparr>trains := trains example_optimizer\<rparr>)"
    by (intro optimizer_step.select_priority [where v = "''2''" and i = 3])
       (simp_all add: priority_options_def)
  moreover have "?s1\<lparr>trains := trains example_optimizer\<rparr> = example_optimizer"
    by (simp add: example_optimizer_def initial_optimizer_def)
  ultimately show ?thesis using 1 optimizer_reachable.step by metis
qed

text \<open>
  Claim C8. Every train of the configuration has a priority among 0 (low, freight),
  1 (medium, local) and 2 (high, express): the three initial trains have, the train
  \<open>addTrain\<close> appends has priority 1, the selector's three options parse to 0, 1
  and 2, and so every state the form can reach holds only such priorities.
\<close>

theorem train_priority_domain:
  "(\<forall>t\<in>set initial_trains. valid_priority (priority t))
   \<and> priority (last (addTrain ts)) = Num 1
   \<and> map parseInt priority_options = [Num 0, Num 1, Num 2]
   \<and> (optimizer_reachable s \<longrightarrow> (\<forall>t\<in>set (trains s). valid_priority (priority t)))"
  using optimizer_reachable_priority [of s]
  by (simp add: initial_trains_def valid_priority_def addTrain_def priority_options_def
      parseInt_priority_options)

theorem train_priority_domain_witness:
  "optimizer_reachable example_optimizer
   \<and> map priority (trains example_optimizer) = [Num 2, Num 1, Num 0, Num 2]
   \<and> list_all (\<lambda>t. valid_priority (priority t)) (trains example_optimizer)"
  using example_optimizer_reachable
    train_priority_domain [of "[]" example_optimizer]
  by (simp add: example_optimizer_def list_all_iff)

subsection \<open>The optimization request\<close>

lemma current_schedule_fold:
  "foldl (\<lambda>acc train. acc(train_id train \<mapsto> e)) m ts k =
     (if k \<in> train_id ` set ts then Some e else m k)"
proof (induction ts arbitrary: m)
  case Nil
  show ?case by simp
next
  case (Cons t ts)
  have "foldl (\<lambda>acc train. acc(train_id train \<mapsto> e)) m (t # ts) k =
        foldl (\<lambda>acc train. acc(train_id train \<mapsto> e)) (m(train_id t \<mapsto> e)) ts k"
    by (simp only: foldl.simps)
  also have "\<dots> = (if k \<in> train_id ` set ts then Some e else (m(train_id t \<mapsto> e)) k)"
    by (rule Cons.IH)
  also have "\<dots> = (if k \<in> train_id ` set (t # ts) then Some e else m k)"
    by auto
  finally show ?case .
qed

text \<open>
  Claim C1. In every state the form can reach, the body \<open>handleOptimize\<close> sends
  holds the trains of the state (each a record of id, ordered route, priority and
  current delay, the priority being 0, 1 or 2), the tracks of the state (each a
  record of id, capacity and type), and an existing schedule that maps exactly
  the train ids, each to \<open>scheduled_time\<close> 0.
\<close>

theorem handleOptimize_payload:
  assumes "optimizer_reachable s"
  shows "body_trains (body (handleOptimize_request s)) = trains s
       \<and> (\<forall>t\<in>set (body_trains (body (handleOptimize_request s))). valid_priority (priority t))
       \<and> body_tracks (body (handleOptimize_request s)) = tracks s
       \<and> dom (current_schedule (body (handleOptimize_request s))) = train_id ` set (trains s)
       \<and> (\<forall>t\<in>set (trains s).
            current_schedule (body (handleOptimize_request s)) (train_id t)
              = Some \<lparr>scheduled_time = Num 0\<rparr>)"
proof -
  have sched: "current_schedule (body (handleOptimize_request s)) k =
      (if k \<in> train_id ` set (trains s) then Some \<lparr>scheduled_time = Num 0\<rparr> else None)" for k
    unfolding handleOptimize_request_def by (simp add: current_schedule_fold)
  have "dom (current_schedule (body (handleOptimize_request s))) = train_id ` set (trains s)"
    unfolding dom_def sched by auto
  moreover have "\<forall>t\<in>set (trains s).
      current_schedule (body (handleOptimize_request s)) (train_id t)
        = Some \<lparr>scheduled_time = Num 0\<rparr>"
    unfolding sched by simp
  moreover have "body_trains (body (handleOptimize_request s)) = trains s"
    "body_tracks (body (handleOptimize_request s)) = tracks s"
    by (simp_all add: handleOptimize_request_def)
  ultimately show ?thesis
    using optimizer_reachable_priority [OF assms] by simp
qed

theorem handleOptimize_payload_witness:
  "optimizer_reachable example_optimizer
   \<and> map train_id (body_trains (body (handleOptimize_request example_optimizer)))
       = [''EXP-101'', ''LOC-78'', ''FRT-203'', ''TRAIN-4'']
   \<and> map priority (body_trains (body (handleOptimize_request example_optimizer)))
       = [Num 2, Num 1, Num 0, Num 2]
   \<and> map track_id (body_tracks (body (handleOptimize_request example_optimizer)))
       = [''A'', ''B'', ''C'', ''D'', ''E'', ''F'']
   \<and> current_schedule (body (handleOptimize_request example_optimizer)) ''TRAIN-4''
       = Some \<lparr>scheduled_time = Num 0\<rparr>"
  using example_optimizer_reachable handleOptimize_payload [OF example_optimizer_reachable]
  by (simp add: example_optimizer_def initial_tracks_def)

subsection \<open>The default configuration\<close>

text \<open>
  Claim C6. The initial state holds the three trains EXP-101, LOC-78 and FRT-203
  with priorities 2, 1 and 0; tracks A, B and C have capacities 1, 2 and 1; and
  each of the three is shared: A lies on the routes of EXP-101 and LOC-78, B and
  C on the routes of EXP-101 and FRT-203.
\<close>

theorem default_configuration_scenario:
  "map (\<lambda>t. (train_id t, priority t)) (trains initial_optimizer)
     = [(''EXP-101'', Num 2), (''LOC-78'', Num 1), (''FRT-203'', Num 0)]
   \<and> capacity_of ''A'' (tracks initial_optimizer) = Some (Num 1)
   \<and> capacity_of ''B'' (tracks initial_optimizer) = Some (Num 2)
   \<and> capacity_of ''C'' (tracks initial_optimizer) = Some (Num 1)
   \<and> trains_using ''A'' (trains initial_optimizer) = [''EXP-101'', ''LOC-78'']
   \<and> trains_using ''B'' (trains initial_optimizer) = [''EXP-101'', ''FRT-203'']
   \<and> trains_using ''C'' (trains initial_optimizer) = [''EXP-101'', ''FRT-203'']"
  by (simp add: initial_optimizer_def initial_trains_def initial_tracks_def
      capacity_of_def trains_using_def)

subsection \<open>Track capacities and kinds\<close>

lemma updateTrack_invariant:
  assumes "updateTrack i fv ks = Some ks'"
    and "\<forall>k\<in>set ks. network_element_ok k"
    and "\<And>c. fv = Capacity c \<Longrightarrow> positive_integer c"
    and "\<And>v. fv = Track_type v \<Longrightarrow> valid_kind v"
  shows "\<forall>k\<in>set ks'. network_element_ok k"
proof -
  from assms(1) have i: "i < length ks" and ks': "ks' = ks[i := assign_track (ks ! i) fv]"
    by (auto simp: updateTrack_def split: if_splits)
  have "network_element_ok (ks ! i)" using assms(2) i by simp
  then have "network_element_ok (assign_track (ks ! i) fv)"
    using assms(3,4) by (cases fv) (auto simp: network_element_ok_def)
  with assms(2) show ?thesis
    unfolding ks' using set_update_subset_insert [of ks i] by blast
qed

text \<open>
  The initial tracks, \<open>addTrack\<close> and the type selector keep capacity a positive
  integer and the kind one of the three; an edit of the capacity keeps them when
  the text typed parses to a positive integer.
\<close>

lemma track_invariant_elsewhere:
  "\<forall>k\<in>set initial_tracks. network_element_ok k"
  "(\<forall>k\<in>set ks. network_element_ok k) \<Longrightarrow> (\<forall>k\<in>set (addTrack ks). network_element_ok k)"
  "(\<forall>k\<in>set ks. network_element_ok k) \<Longrightarrow> v \<in> set type_options \<Longrightarrow>
     type_onChange i v ks = Some ks' \<Longrightarrow> (\<forall>k\<in>set ks'. network_element_ok k)"
  "(\<forall>k\<in>set ks. network_element_ok k) \<Longrightarrow> positive_integer (parseInt v) \<Longrightarrow>
     capacity_onChange i v ks = Some ks' \<Longrightarrow> (\<forall>k\<in>set ks'. network_element_ok k)"
proof -
  show "\<forall>k\<in>set initial_tracks. network_element_ok k"
    by (simp add: initial_tracks_def network_element_ok_def positive_integer_def valid_kind_def)
  show "\<forall>k\<in>set (addTrack ks). network_element_ok k" if "\<forall>k\<in>set ks. network_element_ok k"
    using that
    by (simp add: addTrack_def network_element_ok_def positive_integer_def valid_kind_def)
  show "\<forall>k\<in>set ks'. network_element_ok k"
    if "\<forall>k\<in>set ks. network_element_ok k" "v \<in> set type_options" "type_onChange i v ks = Some ks'"
  proof (rule updateTrack_invariant)
    show "updateTrack i (Track_type v) ks = Some ks'" using that(3) by (simp add: type_onChange_def)
    show "valid_kind w" if "Track_type v = Track_type w" for w
      using that \<open>v \<in> set type_options\<close> by (auto simp: type_options_def valid_kind_def)
  qed (use that in simp_all)
  show "\<forall>k\<in>set ks'. network_element_ok k"
    if "\<forall>k\<in>set ks. network_element_ok k" "positive_integer (parseInt v)"
      "capacity_onChange i v ks = Some ks'"
  proof (rule updateTrack_invariant)
    show "updateTrack i (Capacity (parseInt v)) ks = Some ks'"
      using that(3) by (simp add: capacity_onChange_def)
  qed (use that in simp_all)
qed

text \<open>
  Claim C7 says that every track keeps a capacity that is a positive integer
  after every edit of the capacity field. The capacity input stores
  \<open>parseInt(e.target.value)\<close> as it is: typing \<open>0\<close> into the field of track A
  stores capacity 0, which gives a reachable state with a track of capacity 0,
  and clearing the field stores \<open>NaN\<close>.
\<close>

theorem capacity_edit_stores_zero:
  "capacity_onChange 0 ''0'' (tracks initial_optimizer)
     = Some ((tracks initial_optimizer)
          [0 := \<lparr>track_id = ''A'', capacity = Num 0, track_type = ''junction''\<rparr>])
   \<and> optimizer_reachable
        (initial_optimizer\<lparr>tracks := (tracks initial_optimizer)
          [0 := \<lparr>track_id = ''A'', capacity = Num 0, track_type = ''junction''\<rparr>]\<rparr>)
   \<and> \<not> network_element_ok \<lparr>track_id = ''A'', capacity = Num 0, track_type = ''junction''\<rparr>
   \<and> capacity_onChange 0 [] (tracks initial_optimizer)
     = Some ((tracks initial_optimizer)
          [0 := \<lparr>track_id = ''A'', capacity = NaN, track_type = ''junction''\<rparr>])
   \<and> \<not> network_element_ok \<lparr>track_id = ''A'', capacity = NaN, track_type = ''junction''\<rparr>"
proof -
  have zero: "capacity_onChange 0 ''0'' (tracks initial_optimizer)
     = Some ((tracks initial_optimizer)
          [0 := \<lparr>track_id = ''A'', capacity = Num 0, track_type = ''junction''\<rparr>])"
    by (simp add: capacity_onChange_def updateTrack_def initial_optimizer_def initial_tracks_def
        parseInt_priority_options)
  have "optimizer_reachable
        (initial_optimizer\<lparr>tracks := (tracks initial_optimizer)
          [0 := \<lparr>track_id = ''A'', capacity = Num 0, track_type = ''junction''\<rparr>]\<rparr>)"
    by (rule optimizer_reachable.step [OF optimizer_reachable.start])
       (rule optimizer_step.edit_capacity [OF zero])
  moreover have "capacity_onChange 0 [] (tracks initial_optimizer)
     = Some ((tracks initial_optimizer)
          [0 := \<lparr>track_id = ''A'', capacity = NaN, track_type = ''junction''\<rparr>])"
    by (simp add: capacity_onChange_def updateTrack_def initial_optimizer_def initial_tracks_def
        parseInt_empty)
  moreover have
    "\<not> network_element_ok \<lparr>track_id = ''A'', capacity = Num 0, track_type = ''junction''\<rparr>"
    "\<not> network_element_ok \<lparr>track_id = ''A'', capacity = NaN, track_type = ''junction''\<rparr>"
    by (simp_all add: network_element_ok_def positive_integer_def)
  ultimately show ?thesis using zero by simp
qed

section \<open>AI Decisions: properties\<close>

lemma handleDecision_ids:
  "map decision_id (handleDecision i a r ds) = map decision_id ds"
  by (cases r) (auto simp: handleDecision_def)

lemma handleDecision_failure: "\<not> response_ok r \<Longrightarrow> handleDecision i a r ds = ds"
  by (cases r) (auto simp: handleDecision_def)

lemma handleDecision_other:
  "j \<noteq> i \<Longrightarrow> all_pending j (handleDecision i a r ds) = all_pending j ds"
  by (cases r) (auto simp: handleDecision_def all_pending_def)

text \<open>
  The update of \<open>handleDecision\<close> does not look at the status it replaces: what
  keeps a resolved decision from being resolved again is that its controls are no
  longer offered and that the store refuses a second \<open>resolve\<close>.
\<close>

lemma handleDecision_unconditional:
  "handleDecision ''D-1'' Reject (Response True b) [example_decision\<lparr>status := Accepted\<rparr>]
     = [example_decision\<lparr>status := Rejected\<rparr>]"
  by (simp add: handleDecision_def example_decision_def)

lemma resolve_refuses_second:
  "resolve st i outcome = Inr st' \<Longrightarrow> outcome \<noteq> Pending
     \<Longrightarrow> resolve st' i outcome' = Inl AlreadyResolvedError"
  by (auto simp: resolve_def split: option.splits if_splits)

lemma resolve_Inr:
  "resolve st i outcome = Inr st' \<Longrightarrow> st i = Some Pending \<and> st' = st(i \<mapsto> outcome)"
  by (auto simp: resolve_def split: option.splits if_splits)

lemma distinct_map_remove1_neq:
  assumes "distinct (map f ys)" and "p \<in> set (remove1 x ys)"
  shows "f p \<noteq> f x \<or> x \<notin> set ys"
proof (cases "x \<in> set ys")
  case True
  from assms(1) have d: "distinct ys" and inj: "inj_on f (set ys)"
    by (simp_all add: distinct_map)
  from assms(2) d have "p \<in> set ys" "p \<noteq> x" by simp_all
  with inj True show ?thesis by (auto dest: inj_onD)
qed simp

lemma distinct_map_remove1:
  assumes "distinct (map f zs)"
  shows "distinct (map f (remove1 x zs))"
proof -
  from assms have "distinct zs" and "inj_on f (set zs)"
    by (simp_all add: distinct_map)
  moreover have "set (remove1 x zs) \<subseteq> set zs" by (rule set_remove1_subset)
  ultimately show ?thesis
    by (simp add: distinct_map inj_on_subset)
qed

lemma distinct_map_filter_remove1:
  "distinct (map f (filter P ys)) \<Longrightarrow> distinct (map f (filter P (remove1 x ys)))"
  by (simp add: filter_remove1 distinct_map_remove1)

lemma distinct_same_key:
  assumes "distinct (map f ys)" and "x \<in> set ys" and "y \<in> set ys" and "f x = f y"
  shows "x = y"
  using assms by (auto simp: distinct_map dest: inj_onD)

lemma lifecycle_inv_step:
  assumes inv: "lifecycle_inv s" and st: "system_step s s'"
  shows "lifecycle_inv s'"
proof -
  from inv have dist: "distinct (map decision_id (decisions s))"
    and req: "\<And>q. q \<in> set (requests s) \<Longrightarrow> store s (fst q) = Some Pending
                \<Longrightarrow> all_pending (fst q) (decisions s)"
    and rsp: "\<And>p. p \<in> set (responses s) \<Longrightarrow> response_ok (snd (snd p))
                \<Longrightarrow> store s (fst p) \<noteq> Some Pending \<and> all_pending (fst p) (decisions s)"
    and one: "distinct (map fst (filter (\<lambda>p. response_ok (snd (snd p))) (responses s)))"
    by (auto simp: lifecycle_inv_def)
  from st show ?thesis
  proof cases
    case (click d a)
    have "all_pending (decision_id d) (decisions s)"
      unfolding all_pending_def
    proof (intro ballI impI)
      fix d' assume "d' \<in> set (decisions s)" "decision_id d' = decision_id d"
      with dist click(2) have "d' = d" by (auto intro: distinct_same_key)
      with click(3) show "status d' = Pending" by (simp add: controls_offered_def)
    qed
    with dist req rsp one show ?thesis
      unfolding click(1) lifecycle_inv_def by auto
  next
    case (serve_ok i a st' b)
    from resolve_Inr [OF serve_ok(3)]
    have pend: "store s i = Some Pending" and st': "st' = (store s)(i \<mapsto> outcome_of a)"
      by simp_all
    have ne: "outcome_of a \<noteq> Pending" by (cases a) simp_all
    have ap: "all_pending i (decisions s)" using req [OF serve_ok(2)] pend by simp
    have fresh: "i \<notin> fst ` set (filter (\<lambda>p. response_ok (snd (snd p))) (responses s))"
      using rsp pend by force
    have "\<forall>q\<in>set (remove1 (i, a) (requests s)).
            st' (fst q) = Some Pending \<longrightarrow> all_pending (fst q) (decisions s)"
      using req ne by (auto simp: st' dest!: notin_set_remove1 [rotated] split: if_splits)
    moreover have "\<forall>p\<in>set (responses s @ [(i, a, Response True b)]).
            response_ok (snd (snd p)) \<longrightarrow>
              st' (fst p) \<noteq> Some Pending \<and> all_pending (fst p) (decisions s)"
      using rsp ne ap by (auto simp: st')
    moreover have "distinct (map fst (filter (\<lambda>p. response_ok (snd (snd p)))
            (responses s @ [(i, a, Response True b)])))"
      using one fresh by simp
    ultimately show ?thesis
      unfolding serve_ok(1) lifecycle_inv_def using dist by simp
  next
    case (serve_error i a e b)
    have "\<forall>q\<in>set (remove1 (i, a) (requests s)).
            store s (fst q) = Some Pending \<longrightarrow> all_pending (fst q) (decisions s)"
      using req by (meson notin_set_remove1)
    with dist rsp one show ?thesis
      unfolding serve_error(1) lifecycle_inv_def by auto
  next
    case (request_lost i a)
    have "\<forall>q\<in>set (remove1 (i, a) (requests s)).
            store s (fst q) = Some Pending \<longrightarrow> all_pending (fst q) (decisions s)"
      using req by (meson notin_set_remove1)
    with dist rsp one show ?thesis
      unfolding request_lost(1) lifecycle_inv_def by auto
  next
    case (deliver i a r r')
    let ?ds = "handleDecision i a r' (decisions s)"
    let ?rs = "remove1 (i, a, r) (responses s)"
    have dist': "distinct (map decision_id ?ds)"
      using dist by (simp add: handleDecision_ids)
    have one': "distinct (map fst (filter (\<lambda>p. response_ok (snd (snd p))) ?rs))"
      using one by (rule distinct_map_filter_remove1)
    have sub: "p \<in> set (responses s)" if "p \<in> set ?rs" for p
      using that by (meson notin_set_remove1)
    show ?thesis
    proof (cases "response_ok r'")
      case False
      then have "?ds = decisions s" by (rule handleDecision_failure)
      with dist req rsp one' sub show ?thesis
        unfolding deliver(1) lifecycle_inv_def by auto
    next
      case True
      with deliver(3) have r': "r' = r" and ok: "response_ok r" by auto
      have resolved: "store s i \<noteq> Some Pending"
        using rsp [OF deliver(2)] ok by simp
      have "\<forall>q\<in>set (requests s). store s (fst q) = Some Pending \<longrightarrow> all_pending (fst q) ?ds"
      proof (intro ballI impI)
        fix q assume q: "q \<in> set (requests s)" "store s (fst q) = Some Pending"
        with resolved have "fst q \<noteq> i" by auto
        with req [OF q] show "all_pending (fst q) ?ds" by (simp add: handleDecision_other)
      qed
      moreover have "\<forall>p\<in>set ?rs. response_ok (snd (snd p)) \<longrightarrow>
            store s (fst p) \<noteq> Some Pending \<and> all_pending (fst p) ?ds"
      proof (intro ballI impI)
        fix p assume p: "p \<in> set ?rs" "response_ok (snd (snd p))"
        let ?ok = "filter (\<lambda>p. response_ok (snd (snd p))) (responses s)"
        have "p \<in> set (remove1 (i, a, r) ?ok)"
          using p by (simp add: filter_remove1 [symmetric])
        moreover have "(i, a, r) \<in> set ?ok" using deliver(2) ok by simp
        ultimately have "fst p \<noteq> i"
          using distinct_map_remove1_neq [OF one, of p "(i, a, r)"] by auto
        with rsp [OF sub [OF p(1)] p(2)]
        show "store s (fst p) \<noteq> Some Pending \<and> all_pending (fst p) ?ds"
          by (simp add: handleDecision_other)
      qed
      ultimately show ?thesis
        unfolding deliver(1) lifecycle_inv_def using dist' one' by simp
    qed
  next
    case (other_controller i a st')
    from resolve_Inr [OF other_controller(2)]
    have pend: "store s i = Some Pending" and st': "st' = (store s)(i \<mapsto> outcome_of a)"
      by simp_all
    have "\<forall>q\<in>set (requests s). st' (fst q) = Some Pending \<longrightarrow> all_pending (fst q) (decisions s)"
      using req pend by (auto simp: st' split: if_splits)
    moreover have "\<forall>p\<in>set (responses s). response_ok (snd (snd p)) \<longrightarrow>
            st' (fst p) \<noteq> Some Pending \<and> all_pending (fst p) (decisions s)"
      using rsp pend by (auto simp: st')
    ultimately show ?thesis
      unfolding other_controller(1) lifecycle_inv_def using dist one by simp
  qed
qed

lemma system_reachable_inv: "system_reachable s \<Longrightarrow> lifecycle_inv s"
proof (induction rule: system_reachable.induct)
  case (init s)
  then show ?case by (simp add: system_initial_def lifecycle_inv_def)
next
  case (next_step s s')
  then show ?case by (blast intro: lifecycle_inv_step)
qed

lemma example_replied_reachable: "system_reachable example_replied"
proof -
  let ?s0 = "\<lparr>decisions = [example_decision, example_decision_2], requests = [],
              responses = [], store = [''D-1'' \<mapsto> Pending, ''D-2'' \<mapsto> Pending]\<rparr>"
  let ?s1 = "?s0\<lparr>requests := requests ?s0 @ [(decision_id example_decision_2, Reject)]\<rparr>"
  have 0: "system_reachable ?s0"
    by (rule system_reachable.init)
       (simp add: system_initial_def example_decision_def example_decision_2_def)
  have "system_step ?s0 ?s1"
    by (rule system_step.click) (simp_all add: controls_offered_def example_decision_2_def)
  with 0 have 1: "system_reachable ?s1" by (rule system_reachable.next_step)
  have "system_step ?s1
          (?s1\<lparr>requests := remove1 (''D-2'', Reject) (requests ?s1),
               responses := responses ?s1 @ [(''D-2'', Reject, Response True ''done'')],
               store := [''D-1'' \<mapsto> Pending, ''D-2'' \<mapsto> Rejected]\<rparr>)"
    by (rule system_step.serve_ok) (simp_all add: example_decision_2_def resolve_def)
  with 1 have "system_reachable
          (?s1\<lparr>requests := remove1 (''D-2'', Reject) (requests ?s1),
               responses := responses ?s1 @ [(''D-2'', Reject, Response True ''done'')],
               store := [''D-1'' \<mapsto> Pending, ''D-2'' \<mapsto> Rejected]\<rparr>)"
    by (rule system_reachable.next_step)
  then show ?thesis by (simp add: example_replied_def example_decision_2_def)
qed

lemma example_deliver: "system_step example_replied example_resolved"
proof -
  have "system_step example_replied
          (example_replied\<lparr>decisions := handleDecision ''D-2'' Reject (Response True ''done'')
                                        (decisions example_replied),
             responses := remove1 (''D-2'', Reject, Response True ''done'')
                            (responses example_replied)\<rparr>)"
    by (rule system_step.deliver) (simp_all add: example_replied_def)
  then show ?thesis
    by (simp add: example_replied_def example_resolved_def handleDecision_def
        example_decision_def example_decision_2_def)
qed

lemma handleDecision_nth:
  "length (handleDecision i a (Response True b) ds) = length ds"
  "n < length ds \<Longrightarrow>
     handleDecision i a (Response True b) ds ! n
       = (if decision_id (ds ! n) = i
          then (ds ! n)\<lparr>status := (if a = Accept then Accepted else Rejected)\<rparr>
          else ds ! n)"
  by (simp_all add: handleDecision_def)

text \<open>
  Claim C3. The Accept and Reject controls of a decision are offered exactly while
  its status is pending, and a request is sent only by a click on an offered
  control, for the id of that decision; a response answers a request, with its id
  and action. On a success response \<open>handleDecision\<close> sets the status of each
  decision with the id of the request to accepted when the action is accept and
  to rejected when it is reject, and leaves every other decision as it is. In
  every step of the component together with the store, the decisions change
  only when the component handles a success response, and then the decision with
  the id of the request was pending and takes the status of the action, nothing
  else about it changes, and every other decision is untouched. So a status
  leaves pending at most once and an accepted or rejected decision is never
  changed again.
\<close>

theorem decision_lifecycle:
  assumes "system_reachable s" and "system_step s s'"
  shows "(\<forall>d. controls_offered d = (status d = Pending))
       \<and> length (decisions s') = length (decisions s)
       \<and> (\<forall>n<length (decisions s).
            decisions s' ! n = decisions s ! n
            \<or> (status (decisions s ! n) = Pending
               \<and> (decisions s' ! n = (decisions s ! n)\<lparr>status := Accepted\<rparr>
                  \<or> decisions s' ! n = (decisions s ! n)\<lparr>status := Rejected\<rparr>)
               \<and> (\<forall>m<length (decisions s). m \<noteq> n \<longrightarrow> decisions s' ! m = decisions s ! m)))
       \<and> (decisions s' \<noteq> decisions s \<longrightarrow>
            (\<exists>i a b. (i, a, Response True b) \<in> set (responses s)
               \<and> decisions s' = handleDecision i a (Response True b) (decisions s)
               \<and> (\<forall>n<length (decisions s).
                    (decision_id (decisions s ! n) = i \<longrightarrow>
                       status (decisions s ! n) = Pending
                       \<and> decisions s' ! n
                           = (decisions s ! n)\<lparr>status := (if a = Accept then Accepted else Rejected)\<rparr>)
                  \<and> (decision_id (decisions s ! n) \<noteq> i \<longrightarrow>
                       decisions s' ! n = decisions s ! n))))
       \<and> length (handleDecision i a (Response True b) ds) = length ds
       \<and> (\<forall>n<length ds.
            handleDecision i a (Response True b) ds ! n
              = (if decision_id (ds ! n) = i
                 then (ds ! n)\<lparr>status := (if a = Accept then Accepted else Rejected)\<rparr>
                 else ds ! n))
       \<and> (length (requests s) < length (requests s') \<longrightarrow>
            (\<exists>d\<in>set (decisions s). \<exists>a'.
               controls_offered d \<and> requests s' = requests s @ [(decision_id d, a')]))
       \<and> (length (responses s) < length (responses s') \<longrightarrow>
            (\<exists>i' a' r. (i', a') \<in> set (requests s) \<and> responses s' = responses s @ [(i', a', r)]))"
proof -
  from assms(1) have inv: "lifecycle_inv s" by (rule system_reachable_inv)
  then have dist: "distinct (map decision_id (decisions s))"
    and rsp: "\<And>p. p \<in> set (responses s) \<Longrightarrow> response_ok (snd (snd p))
                \<Longrightarrow> all_pending (fst p) (decisions s)"
    by (auto simp: lifecycle_inv_def)
  have offered: "\<forall>d. controls_offered d = (status d = Pending)"
    by (simp add: controls_offered_def)
  have update: "length (handleDecision i a (Response True b) ds) = length ds
       \<and> (\<forall>n<length ds.
            handleDecision i a (Response True b) ds ! n
              = (if decision_id (ds ! n) = i
                 then (ds ! n)\<lparr>status := (if a = Accept then Accepted else Rejected)\<rparr>
                 else ds ! n))"
    by (simp add: handleDecision_nth)
  have messages: "(length (requests s) < length (requests s') \<longrightarrow>
            (\<exists>d\<in>set (decisions s). \<exists>a'.
               controls_offered d \<and> requests s' = requests s @ [(decision_id d, a')]))
       \<and> (length (responses s) < length (responses s') \<longrightarrow>
            (\<exists>i' a' r. (i', a') \<in> set (requests s) \<and> responses s' = responses s @ [(i', a', r)]))"
    using assms(2)
  proof cases
    case (click d a0)
    then show ?thesis by auto
  next
    case (serve_ok i0 a0 st' b0)
    then show ?thesis by (auto simp: length_remove1)
  next
    case (serve_error i0 a0 e0 b0)
    then show ?thesis by (auto simp: length_remove1)
  next
    case (request_lost i0 a0)
    then show ?thesis by (auto simp: length_remove1)
  next
    case (deliver i0 a0 r r')
    then show ?thesis by (auto simp: length_remove1)
  next
    case (other_controller i0 a0 st')
    then show ?thesis by simp
  qed
  have changes: "length (decisions s') = length (decisions s)
       \<and> (\<forall>n<length (decisions s).
            decisions s' ! n = decisions s ! n
            \<or> (status (decisions s ! n) = Pending
               \<and> (decisions s' ! n = (decisions s ! n)\<lparr>status := Accepted\<rparr>
                  \<or> decisions s' ! n = (decisions s ! n)\<lparr>status := Rejected\<rparr>)
               \<and> (\<forall>m<length (decisions s). m \<noteq> n \<longrightarrow> decisions s' ! m = decisions s ! m)))
       \<and> (decisions s' \<noteq> decisions s \<longrightarrow>
            (\<exists>i a b. (i, a, Response True b) \<in> set (responses s)
               \<and> decisions s' = handleDecision i a (Response True b) (decisions s)
               \<and> (\<forall>n<length (decisions s).
                    (decision_id (decisions s ! n) = i \<longrightarrow>
                       status (decisions s ! n) = Pending
                       \<and> decisions s' ! n
                           = (decisions s ! n)\<lparr>status := (if a = Accept then Accepted else Rejected)\<rparr>)
                  \<and> (decision_id (decisions s ! n) \<noteq> i \<longrightarrow>
                       decisions s' ! n = decisions s ! n))))"
    (is "?len \<and> ?each \<and> ?cause")
  proof -
    have same: "?len \<and> ?each \<and> ?cause" if "decisions s' = decisions s"
      using that by simp
    from assms(2) show ?thesis
    proof cases
      case (deliver i0 a0 r r')
      show ?thesis
      proof (cases "response_ok r'")
        case False
        then have "handleDecision i0 a0 r' (decisions s) = decisions s"
          by (rule handleDecision_failure)
        then show ?thesis using deliver(1) by (intro same) simp
      next
        case True
        with deliver(3) have r': "r' = r" and ok: "response_ok r" by auto
        from ok obtain b0 where r: "r = Response True b0" by (cases r) auto
        have pend: "all_pending i0 (decisions s)" using rsp [OF deliver(2)] ok by simp
        have ds': "decisions s' = handleDecision i0 a0 (Response True b0) (decisions s)"
          using deliver(1) by (simp add: r' r)
        have len: ?len by (simp add: ds' handleDecision_nth)
        have matching: "status (decisions s ! n) = Pending
            \<and> decisions s' ! n
                = (decisions s ! n)\<lparr>status := (if a0 = Accept then Accepted else Rejected)\<rparr>"
          if "n < length (decisions s)" "decision_id (decisions s ! n) = i0" for n
          using that pend by (auto simp: ds' handleDecision_nth all_pending_def)
        have other: "decisions s' ! n = decisions s ! n"
          if "n < length (decisions s)" "decision_id (decisions s ! n) \<noteq> i0" for n
          using that by (simp add: ds' handleDecision_nth)
        have unique: "decision_id (decisions s ! m) \<noteq> i0"
          if "n < length (decisions s)" "decision_id (decisions s ! n) = i0"
            "m < length (decisions s)" "m \<noteq> n" for n m
        proof -
          have "map decision_id (decisions s) ! m \<noteq> map decision_id (decisions s) ! n"
            using dist that nth_eq_iff_index_eq [of "map decision_id (decisions s)" m n]
            by simp
          with that show ?thesis by simp
        qed
        have each: ?each
        proof (intro allI impI)
          fix n assume n: "n < length (decisions s)"
          show "decisions s' ! n = decisions s ! n
            \<or> (status (decisions s ! n) = Pending
               \<and> (decisions s' ! n = (decisions s ! n)\<lparr>status := Accepted\<rparr>
                  \<or> decisions s' ! n = (decisions s ! n)\<lparr>status := Rejected\<rparr>)
               \<and> (\<forall>m<length (decisions s). m \<noteq> n \<longrightarrow> decisions s' ! m = decisions s ! m))"
          proof (cases "decision_id (decisions s ! n) = i0")
            case False
            with n other show ?thesis by simp
          next
            case True
            from matching [OF n True]
            have "status (decisions s ! n) = Pending"
              and "decisions s' ! n = (decisions s ! n)\<lparr>status := Accepted\<rparr>
                  \<or> decisions s' ! n = (decisions s ! n)\<lparr>status := Rejected\<rparr>"
              by (simp_all split: if_splits)
            moreover have "\<forall>m<length (decisions s). m \<noteq> n \<longrightarrow> decisions s' ! m = decisions s ! m"
              using unique [OF n True] other by blast
            ultimately show ?thesis by blast
          qed
        qed
        have cause: ?cause
        proof
          assume "decisions s' \<noteq> decisions s"
          have "(i0, a0, Response True b0) \<in> set (responses s)" using deliver(2) r by simp
          with ds' matching other
          show "\<exists>i a b. (i, a, Response True b) \<in> set (responses s)
               \<and> decisions s' = handleDecision i a (Response True b) (decisions s)
               \<and> (\<forall>n<length (decisions s).
                    (decision_id (decisions s ! n) = i \<longrightarrow>
                       status (decisions s ! n) = Pending
                       \<and> decisions s' ! n
                           = (decisions s ! n)\<lparr>status := (if a = Accept then Accepted else Rejected)\<rparr>)
                  \<and> (decision_id (decisions s ! n) \<noteq> i \<longrightarrow>
                       decisions s' ! n = decisions s ! n))"
            by blast
        qed
        from len each cause show ?thesis by blast
      qed
    qed (simp_all add: same)
  qed
  from offered update messages changes show ?thesis by blast
qed

theorem decision_lifecycle_witness:
  "system_reachable example_replied \<and> system_step example_replied example_resolved
   \<and> responses example_replied = [(''D-2'', Reject, Response True ''done'')]
   \<and> map decision_id (decisions example_replied) = [''D-1'', ''D-2'']
   \<and> map status (decisions example_replied) = [Pending, Pending]
   \<and> map status (decisions example_resolved) = [Pending, Rejected]
   \<and> decisions example_resolved ! 0 = decisions example_replied ! 0
   \<and> decisions example_resolved ! 1 = (decisions example_replied ! 1)\<lparr>status := Rejected\<rparr>"
  using example_replied_reachable example_deliver
    decision_lifecycle [OF example_replied_reachable example_deliver]
  by (simp add: example_replied_def example_resolved_def example_decision_def
      example_decision_2_def)

text \<open>
  Claim C4. When the request does not come back with a success response (the
  response is not \<open>ok\<close>, or \<open>fetch\<close> rejects), \<open>handleDecision\<close> leaves the decisions
  state as it was, whatever the id and the action.
\<close>

theorem failed_resolution_keeps_state:
  "\<not> response_ok resp \<Longrightarrow> handleDecision decisionId act resp prev = prev"
  by (cases resp) (simp_all add: handleDecision_def)

theorem failed_resolution_keeps_state_witness:
  "\<not> response_ok (Response False ''already resolved'')
   \<and> handleDecision ''D-1'' Reject (Response False ''already resolved'')
        [example_decision\<lparr>status := Accepted\<rparr>] = [example_decision\<lparr>status := Accepted\<rparr>]
   \<and> \<not> response_ok Network_error
   \<and> handleDecision ''D-1'' Accept Network_error [example_decision] = [example_decision]"
  using failed_resolution_keeps_state
      [of "Response False ''already resolved''" "''D-1''" Reject
          "[example_decision\<lparr>status := Accepted\<rparr>]"]
    failed_resolution_keeps_state [of Network_error "''D-1''" Accept "[example_decision]"]
  by simp

text \<open>
  Claim C5. The request \<open>handleDecision\<close> sends names the decision id and the action
  in its address, and its body holds the action (accept or reject), the controller
  identity, a feedback score of 0.9 on accept and 0.1 on reject, which lies
  between 0 and 1, and a free-text context. Of the response only the \<open>ok\<close> flag is
  read: two responses with the same flag and different bodies have the same effect.
\<close>

theorem resolution_request_fields:
  "url (handleDecision_request decisionId act)
     = ''http://localhost:8000/decisions/'' @ decisionId @ ''/'' @ action_text act
   \<and> action (body (handleDecision_request decisionId act)) = action_text act
   \<and> action_text act \<in> {''accept'', ''reject''}
   \<and> controller_id (body (handleDecision_request decisionId act)) = ''controller-001''
   \<and> feedback_score (body (handleDecision_request decisionId act))
       = (if act = Accept then Num 0.9 else Num 0.1)
   \<and> in_unit_interval (feedback_score (body (handleDecision_request decisionId act)))
   \<and> context_text (body (handleDecision_request decisionId act)) = action_text act @ ''ed decision''
   \<and> handleDecision decisionId act (Response ok b1) prev
       = handleDecision decisionId act (Response ok b2) prev"
  by (cases act) (simp_all add: handleDecision_request_def in_unit_interval_def handleDecision_def)

section \<open>ML Predictions: properties\<close>






section \<open>Dashboard and Analytics: properties\<close>

text \<open>
  Claim C9. The on-time rate of the dashboard and the percentage of a decision type
  in the analytics are defined by a guarded expression: with a total of zero each
  is 0, for every badge of the analytics; and a value other than 0 is shown only
  when the total is positive, the one case in which the division is evaluated.
\<close>

theorem percentages_total:
  "(totalTrains st = Num 0 \<longrightarrow> on_time_rate st = Num 0)
   \<and> (total_decisions d = Num 0 \<longrightarrow> (\<forall>b\<in>set (decision_type_badges d). snd b = Num 0))
   \<and> (on_time_rate st \<noteq> Num 0 \<longrightarrow> js_greater (totalTrains st) (Num 0))
   \<and> (decision_type_percentage d count \<noteq> Num 0 \<longrightarrow> js_greater (total_decisions d) (Num 0))"
proof -
  have "total_decisions d = Num 0 \<longrightarrow> (\<forall>b\<in>set (decision_type_badges d). snd b = Num 0)"
    by (auto simp: decision_type_badges_def decision_type_percentage_def)
  then show ?thesis
    by (simp add: on_time_rate_def decision_type_percentage_def)
qed

theorem percentages_total_witness:
  "totalTrains initial_stats = Num 0 \<and> on_time_rate initial_stats = Num 0
   \<and> total_decisions example_success_rate = Num 0
   \<and> decision_type_badges example_success_rate = [(''routing'', Num 0), (''scheduling'', Num 0)]
   \<and> js_divide (Num 0) (total_decisions example_success_rate) = NaN
   \<and> on_time_rate (initial_stats\<lparr>totalTrains := Num 4, onTimeTrains := Num 3\<rparr>) = Num 75
   \<and> js_greater (totalTrains (initial_stats\<lparr>totalTrains := Num 4, onTimeTrains := Num 3\<rparr>)) (Num 0)
   \<and> decision_type_percentage (example_success_rate\<lparr>total_decisions := Num 4\<rparr>) (Num 3) = Num 75
   \<and> js_greater (total_decisions (example_success_rate\<lparr>total_decisions := Num 4\<rparr>)) (Num 0)"
  using percentages_total [of initial_stats example_success_rate "Num 0"]
    percentages_total [of "initial_stats\<lparr>totalTrains := Num 4, onTimeTrains := Num 3\<rparr>"
      "example_success_rate\<lparr>total_decisions := Num 4\<rparr>" "Num 3"]
  by (simp add: initial_stats_def example_success_rate_def decision_type_badges_def
      decision_type_percentage_def on_time_rate_def to_double_small)

text \<open>
  The guard excludes the zero divisor and nothing else: a count of \<open>2^1023\<close> with
  a total of 1 is shown as \<open>Infinity\<close>, the product with 100 being past the
  largest double.
\<close>

lemma to_double_overflow:
  assumes "2 ^ 1024 \<le> x"
  shows "to_double x = Infinity"
proof -
  have pos: "0 < x" using assms by (smt (verit) zero_less_power)
  have "\<not> \<bar>x\<bar> < 2 ^ 53 * 2 powi e" if "e \<in> set [- 1074..971]" for e
  proof -
    from that have "e \<le> 971" by (simp only: set_upto atLeastAtMost_iff)
    then have "(2::real) powi e \<le> 2 powi 971" by (rule power_int_increasing) simp
    then have "(2::real) ^ 53 * 2 powi e \<le> 2 ^ 53 * 2 powi 971" by simp
    also have "\<dots> = 2 ^ 1024" by (simp add: power_int_def flip: power_add)
    finally show ?thesis using assms by simp
  qed
  then have "double_exponent \<bar>x\<bar> = None"
    unfolding double_exponent_def find_None_iff by blast
  with pos show ?thesis by (simp add: to_double_def)
qed

lemma percentage_overflow:
  "decision_type_percentage (example_success_rate\<lparr>total_decisions := Num 1\<rparr>) (Num (2 ^ 1023))
     = Infinity"
proof -
  have "to_double (2 ^ 1023) = Num (2 ^ 1023)"
    by (rule to_double_exact [where m = 1 and e = 1023]) (simp_all add: power_int_def)
  moreover have "to_double (2 ^ 1023 * 100) = Infinity"
    by (rule to_double_overflow) simp
  ultimately show ?thesis
    by (simp add: decision_type_percentage_def example_success_rate_def)
qed

lemma fetchTrainStatuses_no_early:
  assumes "\<forall>t\<in>set sts. ts_status t \<noteq> Early"
  shows "\<forall>t\<in>set (fetchTrainStatuses r sts). ts_status t \<noteq> Early"
  using assms by (auto simp: fetchTrainStatuses_def split: fetch_outcome.splits option.splits)

lemma trainStatuses_reachable_no_early:
  "trainStatuses_reachable sts \<Longrightarrow> \<forall>t\<in>set sts. ts_status t \<noteq> Early"
  by (induction rule: trainStatuses_reachable.induct) (simp_all add: fetchTrainStatuses_no_early)

text \<open>
  Claim C10. For the predictions of a successful fetch, the status of the n-th train
  is delayed exactly when the n-th predicted delay is greater than 10, and on-time
  otherwise; a delay \<open>x\<close> is greater than 10 exactly when \<open>10 < x\<close>. No state of
  \<open>trainStatuses\<close> that fetching can produce holds a train with status early.
\<close>

theorem derived_train_status:
  "length (fetchTrainStatuses (Response True (Some preds)) sts) = length preds
   \<and> (\<forall>n<length preds.
         (ts_status (fetchTrainStatuses (Response True (Some preds)) sts ! n) = Delayed
            \<longleftrightarrow> js_greater (predictedDelay (preds ! n)) (Num 10))
       \<and> (ts_status (fetchTrainStatuses (Response True (Some preds)) sts ! n) = On_time
            \<longleftrightarrow> \<not> js_greater (predictedDelay (preds ! n)) (Num 10)))
   \<and> (\<forall>x. js_greater (Num x) (Num 10) \<longleftrightarrow> 10 < x)
   \<and> (trainStatuses_reachable sts' \<longrightarrow> (\<forall>t\<in>set sts'. ts_status t \<noteq> Early))"
  using trainStatuses_reachable_no_early [of sts']
  by (simp add: fetchTrainStatuses_def)

theorem derived_train_status_witness:
  "trainStatuses_reachable (fetchTrainStatuses (Response True (Some example_predictions)) [])
   \<and> map ts_status (fetchTrainStatuses (Response True (Some example_predictions)) [])
       = [Delayed, On_time, On_time]"
  using derived_train_status [of example_predictions "[]"
      "fetchTrainStatuses (Response True (Some example_predictions)) []"]
    trainStatuses_reachable.fetched [OF trainStatuses_reachable.mounted,
      of "Response True (Some example_predictions)"]
  by (simp add: example_predictions_def fetchTrainStatuses_def)

end
